theory Spec2Isabelle
  imports Complex_Main
begin

section \<open>The notebook as data\<close>

text \<open>
  \<^verbatim>\<open>Normalization_Techniques/Normalization.ipynb\<close> is a Jupyter notebook: a list of
  cells, each with a \<^verbatim>\<open>cell_type\<close>, an \<^verbatim>\<open>id\<close> and a \<^verbatim>\<open>source\<close> array of lines.
  The cells are transcribed in file order. Of every \<^verbatim>\<open>source\<close> array the record keeps
  the first line (the heading of the cell, when there is one) and the number of lines.
\<close>

datatype cell_type = Markdown | Code

record cell =
  cell_type :: cell_type
  cell_id :: string
  heading :: "string option"
  source_lines :: nat

definition cells :: "cell list" where
  "cells =
    [\<lparr>cell_type = Markdown, cell_id = ''5f8436c4-1cc9-4fad-8c1c-4e580a83eb11'',
      heading = Some ''### Data Normalization'', source_lines = 32\<rparr>,
     \<lparr>cell_type = Markdown, cell_id = ''01db4aab-3332-417c-a373-28c15f8ed208'',
      heading = Some ''### Batch Normalization'', source_lines = 58\<rparr>,
     \<lparr>cell_type = Markdown, cell_id = ''c3fe6be8-691e-4a38-9f0c-ecdc1ce2c09c'',
      heading = Some ''### Layer Normalization'', source_lines = 57\<rparr>,
     \<lparr>cell_type = Markdown, cell_id = ''63a1f15e-d2ac-435a-83d9-7783a7300f70'',
      heading = Some ''### Comparison and Use Cases'', source_lines = 12\<rparr>,
     \<lparr>cell_type = Code, cell_id = ''80828887-2ebb-4a3b-99cb-0303eec20b2e'',
      heading = None, source_lines = 0\<rparr>]"

definition is_empty_cell :: "cell \<Rightarrow> bool" where
  "is_empty_cell c = (source_lines c = 0)"

definition code_cells :: "cell list \<Rightarrow> cell list" where
  "code_cells cs = filter (\<lambda>c. cell_type c = Code) cs"

text \<open>What a kernel would run: the code cells that have a source.\<close>

definition executable_cells :: "cell list \<Rightarrow> cell list" where
  "executable_cells cs = filter (\<lambda>c. \<not> is_empty_cell c) (code_cells cs)"


section \<open>The formulas of the notebook\<close>

text \<open>
  The formulas are over the real numbers. A quotient whose denominator is zero and a
  square root of a negative number have no value; neither has the mean of an empty
  sample, nor a feature of a batch in which some data point lacks it. Each is a branch
  of the model.
\<close>

datatype error = EmptySample | DivisionByZero | NegativeRadicand | RaggedBatch

definition guarded_div :: "real \<Rightarrow> real \<Rightarrow> error + real" where
  "guarded_div a b = (if b = 0 then Inl DivisionByZero else Inr (a / b))"

definition guarded_sqrt :: "real \<Rightarrow> error + real" where
  "guarded_sqrt a = (if a < 0 then Inl NegativeRadicand else Inr (sqrt a))"

text \<open>Applying a formula to every element of a sample: the first failure is the result.\<close>

fun collect :: "(error + 'a) list \<Rightarrow> error + 'a list" where
  "collect [] = Inr []"
| "collect (r # rs) =
    (case r of
       Inl e \<Rightarrow> Inl e
     | Inr y \<Rightarrow> (case collect rs of Inl e \<Rightarrow> Inl e | Inr ys \<Rightarrow> Inr (y # ys)))"

subsection \<open>Sample statistics\<close>

definition mean :: "real list \<Rightarrow> error + real" where
  "mean xs =
    (if xs = [] then Inl EmptySample else Inr (sum_list xs / real (length xs)))"

definition sum_sq_dev :: "real \<Rightarrow> real list \<Rightarrow> real" where
  "sum_sq_dev mu xs = sum_list (map (\<lambda>x. (x - mu)\<^sup>2) xs)"

text \<open>The variance of a mini-batch or of a feature vector: the mean squared deviation.\<close>

definition variance :: "real list \<Rightarrow> error + real" where
  "variance xs =
    (case mean xs of
       Inl e \<Rightarrow> Inl e
     | Inr mu \<Rightarrow> Inr (sum_sq_dev mu xs / real (length xs)))"

text \<open>
  The standard deviation of a sample, with \<open>ddof\<close> delta degrees of freedom: \<open>ddof = 0\<close>
  divides by \<open>n\<close> (what \<^verbatim>\<open>StandardScaler\<close> does), \<open>ddof = 1\<close> by \<open>n - 1\<close>.
\<close>

definition std_dev :: "nat \<Rightarrow> real list \<Rightarrow> error + real" where
  "std_dev ddof xs =
    (case mean xs of
       Inl e \<Rightarrow> Inl e
     | Inr mu \<Rightarrow>
        (case guarded_div (sum_sq_dev mu xs) (real (length xs) - real ddof) of
           Inl e \<Rightarrow> Inl e
         | Inr v \<Rightarrow> guarded_sqrt v))"

subsection \<open>Min-max scaling\<close>

text \<open>\<^verbatim>\<open>X' = (X - X_min) / (X_max - X_min)\<close>\<close>

definition min_max_scaling :: "real \<Rightarrow> real \<Rightarrow> real \<Rightarrow> error + real" where
  "min_max_scaling X_min X_max X = guarded_div (X - X_min) (X_max - X_min)"

definition min_max_scaler :: "real list \<Rightarrow> error + real list" where
  "min_max_scaler xs =
    (if xs = [] then Inl EmptySample
     else collect (map (min_max_scaling (Min (set xs)) (Max (set xs))) xs))"

subsection \<open>Z-score normalization\<close>

text \<open>\<^verbatim>\<open>X' = (X - mu) / sigma\<close>\<close>

definition z_score :: "real \<Rightarrow> real \<Rightarrow> real \<Rightarrow> error + real" where
  "z_score mu sigma X = guarded_div (X - mu) sigma"

definition z_score_normalization :: "nat \<Rightarrow> real list \<Rightarrow> error + real list" where
  "z_score_normalization ddof xs =
    (case mean xs of
       Inl e \<Rightarrow> Inl e
     | Inr mu \<Rightarrow>
        (case std_dev ddof xs of
           Inl e \<Rightarrow> Inl e
         | Inr sigma \<Rightarrow> collect (map (z_score mu sigma) xs)))"

subsection \<open>Batch normalization\<close>

text \<open>
  \<^verbatim>\<open>x_hat = (x - mu_B) / sqrt (sigma_B^2 + epsilon)\<close> and \<^verbatim>\<open>y = gamma * x_hat + beta\<close>,
  with \<open>mu_B\<close> and \<open>sigma_B^2\<close> the mean and the variance of the mini-batch.
\<close>

definition x_hat :: "real \<Rightarrow> real \<Rightarrow> real \<Rightarrow> real \<Rightarrow> error + real" where
  "x_hat mu var eps x =
    (case guarded_sqrt (var + eps) of
       Inl e \<Rightarrow> Inl e
     | Inr d \<Rightarrow> guarded_div (x - mu) d)"

definition scale_shift :: "real \<Rightarrow> real \<Rightarrow> real \<Rightarrow> real" where
  "scale_shift gamma beta xh = gamma * xh + beta"

definition batch_norm_hat :: "real \<Rightarrow> real list \<Rightarrow> error + real list" where
  "batch_norm_hat eps xs =
    (case mean xs of
       Inl e \<Rightarrow> Inl e
     | Inr mu \<Rightarrow>
        (case variance xs of
           Inl e \<Rightarrow> Inl e
         | Inr var \<Rightarrow> collect (map (x_hat mu var eps) xs)))"

definition batch_norm :: "real \<Rightarrow> real \<Rightarrow> real \<Rightarrow> real list \<Rightarrow> error + real list" where
  "batch_norm eps gamma beta xs =
    (case batch_norm_hat eps xs of
       Inl e \<Rightarrow> Inl e
     | Inr hs \<Rightarrow> Inr (map (scale_shift gamma beta) hs))"

subsection \<open>Layer normalization\<close>

text \<open>
  The same two formulas, with \<open>mu\<close> and \<open>sigma^2\<close> the mean and the variance across the
  features of one data point. A batch is a list of data points, each a feature vector;
  every data point has a result of its own.
\<close>

definition layer_norm_hat :: "real \<Rightarrow> real list \<Rightarrow> error + real list" where
  "layer_norm_hat eps x =
    (case mean x of
       Inl e \<Rightarrow> Inl e
     | Inr mu \<Rightarrow>
        (case variance x of
           Inl e \<Rightarrow> Inl e
         | Inr var \<Rightarrow> collect (map (x_hat mu var eps) x)))"

definition layer_norm :: "real \<Rightarrow> real \<Rightarrow> real \<Rightarrow> real list \<Rightarrow> error + real list" where
  "layer_norm eps gamma beta x =
    (case layer_norm_hat eps x of
       Inl e \<Rightarrow> Inl e
     | Inr hs \<Rightarrow> Inr (map (scale_shift gamma beta) hs))"

subsection \<open>Normalizing a batch of data points\<close>

text \<open>
  Both layers of the notebook's examples receive a batch: a list of data points, each a
  list of features (\<^verbatim>\<open>nn.BatchNorm1d(50)\<close> and \<^verbatim>\<open>nn.LayerNorm(50)\<close> on 5 data points of
  50 features). Both apply the same two formulas to every entry of the batch, and differ
  in the values whose mean and variance they use. Batch normalization normalizes
  ``within a mini-batch'' (``the mean and variance of the batch''): for feature \<open>j\<close>, the
  values of feature \<open>j\<close> in all data points of the batch. Layer normalization normalizes
  ``across the features for each individual data point rather than across the
  mini-batch'': the features of the data point the entry is in.
\<close>

datatype axis = Across_Batch | Across_Features

definition column :: "real list list \<Rightarrow> nat \<Rightarrow> error + real list" where
  "column batch j =
    (if list_all (\<lambda>row. j < length row) batch then Inr (map (\<lambda>row. row ! j) batch)
     else Inl RaggedBatch)"

definition statistics_over ::
  "axis \<Rightarrow> real list list \<Rightarrow> real list \<Rightarrow> nat \<Rightarrow> error + real list" where
  "statistics_over ax batch row j =
    (case ax of Across_Batch \<Rightarrow> column batch j | Across_Features \<Rightarrow> Inr row)"

text \<open>The entry \<open>v\<close>, feature \<open>j\<close> of the data point \<open>row\<close> of \<open>batch\<close>, normalized.\<close>

definition normalize_entry ::
  "axis \<Rightarrow> real \<Rightarrow> real \<Rightarrow> real \<Rightarrow> real list list \<Rightarrow> real list \<Rightarrow> nat \<Rightarrow> real
   \<Rightarrow> error + real" where
  "normalize_entry ax eps gamma beta batch row j v =
    (case statistics_over ax batch row j of
       Inl e \<Rightarrow> Inl e
     | Inr g \<Rightarrow>
        (case mean g of
           Inl e \<Rightarrow> Inl e
         | Inr mu \<Rightarrow>
            (case variance g of
               Inl e \<Rightarrow> Inl e
             | Inr var \<Rightarrow>
                (case x_hat mu var eps v of
                   Inl e \<Rightarrow> Inl e
                 | Inr h \<Rightarrow> Inr (scale_shift gamma beta h)))))"

text \<open>The output for a batch: one result for each data point, in the order of the batch.\<close>

definition normalize_batch ::
  "axis \<Rightarrow> real \<Rightarrow> real \<Rightarrow> real \<Rightarrow> real list list \<Rightarrow> (error + real list) list" where
  "normalize_batch ax eps gamma beta batch =
    map (\<lambda>row. collect (map (\<lambda>(j, v). normalize_entry ax eps gamma beta batch row j v)
                           (enumerate 0 row)))
      batch"

definition batch_norm_batch ::
  "real \<Rightarrow> real \<Rightarrow> real \<Rightarrow> real list list \<Rightarrow> (error + real list) list" where
  "batch_norm_batch = normalize_batch Across_Batch"

definition layer_norm_batch ::
  "real \<Rightarrow> real \<Rightarrow> real \<Rightarrow> real list list \<Rightarrow> (error + real list) list" where
  "layer_norm_batch = normalize_batch Across_Features"


section \<open>Auxiliary facts\<close>

lemma collect_map_Inr:
  "(\<And>x. x \<in> set xs \<Longrightarrow> f x = Inr (g x)) \<Longrightarrow> collect (map f xs) = Inr (map g xs)"
  by (induction xs) simp_all

lemma collect_map_Inl:
  "xs \<noteq> [] \<Longrightarrow> (\<And>x. x \<in> set xs \<Longrightarrow> f x = Inl e) \<Longrightarrow> collect (map f xs) = Inl e"
  by (cases xs) simp_all

lemma min_max_scaling_value:
  "X_min \<noteq> X_max \<Longrightarrow>
   min_max_scaling X_min X_max X = Inr ((X - X_min) / (X_max - X_min))"
  by (simp add: min_max_scaling_def guarded_div_def)

lemma unit_interval:
  fixes X :: real
  assumes "X_min < X_max" "X_min \<le> X" "X \<le> X_max"
  shows "0 \<le> (X - X_min) / (X_max - X_min)" "(X - X_min) / (X_max - X_min) \<le> 1"
  using assms by simp_all

lemma min_max_scaler_value:
  assumes "xs \<noteq> []" "Min (set xs) \<noteq> Max (set xs)"
  shows "min_max_scaler xs =
    Inr (map (\<lambda>X. (X - Min (set xs)) / (Max (set xs) - Min (set xs))) xs)"
  using assms
  by (simp add: min_max_scaler_def collect_map_Inr min_max_scaling_value)


lemma sum_list_standardized:
  fixes m d :: real
  shows "sum_list (map (\<lambda>x. (x - m) / d) xs) = (sum_list xs - real (length xs) * m) / d"
  by (induction xs) (simp_all add: field_simps add_divide_distrib diff_divide_distrib)

lemma sum_sq_dev_standardized:
  "sum_sq_dev 0 (map (\<lambda>x. (x - m) / d) xs) = sum_sq_dev m xs / d\<^sup>2"
  by (induction xs) (simp_all add: sum_sq_dev_def power_divide add_divide_distrib)

lemma sum_sq_dev_nonneg: "0 \<le> sum_sq_dev mu xs"
  unfolding sum_sq_dev_def by (rule sum_list_nonneg) auto

lemma variance_value:
  "xs \<noteq> [] \<Longrightarrow>
   variance xs = Inr (sum_sq_dev (sum_list xs / real (length xs)) xs / real (length xs))"
  by (simp add: variance_def mean_def)

lemma variance_nonneg: "variance xs = Inr v \<Longrightarrow> 0 \<le> v"
  using sum_sq_dev_nonneg [of "sum_list xs / real (length xs)" xs]
  by (cases "xs = []") (auto simp add: variance_def mean_def)

lemma mean_standardized:
  assumes "xs \<noteq> []" "mean xs = Inr mu"
  shows "mean (map (\<lambda>x. (x - mu) / d) xs) = Inr 0"
proof -
  have mu: "mu = sum_list xs / real (length xs)" using assms by (simp add: mean_def)
  have n: "real (length xs) \<noteq> 0" using assms(1) by simp
  have "real (length xs) * mu = sum_list xs" using n by (simp add: mu)
  then have "sum_list (map (\<lambda>x. (x - mu) / d) xs) = 0"
    by (simp add: sum_list_standardized)
  then show ?thesis using assms(1) by (simp add: mean_def)
qed

lemma x_hat_value:
  "0 < var + eps \<Longrightarrow> x_hat mu var eps x = Inr ((x - mu) / sqrt (var + eps))"
  by (simp add: x_hat_def guarded_sqrt_def guarded_div_def)

lemma batch_norm_hat_value:
  assumes "xs \<noteq> []" "0 < eps" "mean xs = Inr mu" "variance xs = Inr var"
  shows "batch_norm_hat eps xs = Inr (map (\<lambda>x. (x - mu) / sqrt (var + eps)) xs)"
proof -
  have "0 < var + eps" using variance_nonneg [OF assms(4)] assms(2) by simp
  then show ?thesis
    using assms(3,4) by (simp add: batch_norm_hat_def collect_map_Inr x_hat_value)
qed

lemma variance_standardized:
  assumes "xs \<noteq> []" "mean xs = Inr mu" "variance xs = Inr var"
  shows "variance (map (\<lambda>x. (x - mu) / d) xs) = Inr (var / d\<^sup>2)"
proof -
  have v: "var = sum_sq_dev mu xs / real (length xs)"
    using assms by (simp add: variance_def)
  show ?thesis
    using assms(1) mean_standardized [OF assms(1,2), of d]
    by (simp add: variance_def sum_sq_dev_standardized v)
qed

lemma layer_norm_hat_eq: "layer_norm_hat eps x = batch_norm_hat eps x"
  by (simp add: layer_norm_hat_def batch_norm_hat_def)

lemma batch_norm_hat_not_div:
  assumes "0 < eps"
  shows "batch_norm_hat eps xs \<noteq> Inl DivisionByZero
       \<and> (xs \<noteq> [] \<longrightarrow> (\<exists>hs. batch_norm_hat eps xs = Inr hs))"
proof (cases "xs = []")
  case True
  then show ?thesis by (simp add: batch_norm_hat_def mean_def)
next
  case False
  obtain mu where mu: "mean xs = Inr mu" using False by (simp add: mean_def)
  obtain var where var: "variance xs = Inr var" using mu by (simp add: variance_def)
  show ?thesis using batch_norm_hat_value [OF False assms mu var] by simp
qed

lemma std_dev_value:
  assumes "ddof < length xs" "mean xs = Inr mu"
  shows "std_dev ddof xs = Inr (sqrt (sum_sq_dev mu xs / (real (length xs) - real ddof)))"
proof -
  have k: "0 < real (length xs) - real ddof" using assms(1) by simp
  then have "0 \<le> sum_sq_dev mu xs / (real (length xs) - real ddof)"
    using sum_sq_dev_nonneg [of mu xs] by simp
  then show ?thesis
    using k assms(2) by (simp add: std_dev_def guarded_div_def guarded_sqrt_def)
qed

lemma collect_map_post:
  "collect (map (\<lambda>x. case f x of Inl e \<Rightarrow> Inl e | Inr h \<Rightarrow> Inr (g h)) xs)
   = (case collect (map f xs) of Inl e \<Rightarrow> Inl e | Inr hs \<Rightarrow> Inr (map g hs))"
  by (induction xs) (simp_all split: sum.splits)

lemma map_enumerate_values:
  "map (\<lambda>(j, v). f v) (enumerate n xs) = map f xs"
  by (induction xs arbitrary: n) simp_all

lemma normalize_entry_across_features:
  "normalize_entry Across_Features eps gamma beta batch row j v =
    (case mean row of
       Inl e \<Rightarrow> Inl e
     | Inr mu \<Rightarrow>
        (case variance row of
           Inl e \<Rightarrow> Inl e
         | Inr var \<Rightarrow>
            (case x_hat mu var eps v of
               Inl e \<Rightarrow> Inl e
             | Inr h \<Rightarrow> Inr (scale_shift gamma beta h))))"
  by (simp add: normalize_entry_def statistics_over_def)

lemma layer_norm_batch_nth_empty:
  assumes "i < length batch" "batch ! i = []"
  shows "layer_norm_batch eps gamma beta batch ! i = Inr []"
  using assms by (simp add: layer_norm_batch_def normalize_batch_def)

lemma layer_norm_batch_nth:
  assumes "i < length batch" "batch ! i \<noteq> []"
  shows "layer_norm_batch eps gamma beta batch ! i = layer_norm eps gamma beta (batch ! i)"
proof -
  let ?x = "batch ! i"
  obtain mu where mu: "mean ?x = Inr mu" using assms(2) by (simp add: mean_def)
  obtain var where var: "variance ?x = Inr var" using mu by (simp add: variance_def)
  have entry: "(\<lambda>(j, v). normalize_entry Across_Features eps gamma beta batch ?x j v)
      = (\<lambda>(j, v). case x_hat mu var eps v of
                     Inl e \<Rightarrow> Inl e | Inr h \<Rightarrow> Inr (scale_shift gamma beta h))"
    by (simp add: normalize_entry_across_features mu var)
  have "layer_norm_batch eps gamma beta batch ! i
      = collect (map (\<lambda>(j, v). normalize_entry Across_Features eps gamma beta batch ?x j v)
          (enumerate 0 ?x))"
    using assms(1) by (simp add: layer_norm_batch_def normalize_batch_def)
  also have "\<dots> = collect (map (\<lambda>v. case x_hat mu var eps v of
      Inl e \<Rightarrow> Inl e | Inr h \<Rightarrow> Inr (scale_shift gamma beta h)) ?x)"
    by (simp only: entry map_enumerate_values)
  also have "\<dots> = layer_norm eps gamma beta ?x"
    by (simp add: collect_map_post layer_norm_def layer_norm_hat_def mu var)
  finally show ?thesis .
qed

lemma layer_norm_value:
  assumes "mean x = Inr mu" "variance x = Inr var" "0 < var + eps"
  shows "layer_norm eps gamma beta x
    = Inr (map (\<lambda>v. gamma * ((v - mu) / sqrt (var + eps)) + beta) x)"
  using assms
  by (simp add: layer_norm_def layer_norm_hat_def collect_map_Inr x_hat_value
      scale_shift_def comp_def)

lemma collect_Inr_map:
  "collect rs = Inr hs \<Longrightarrow> rs = map Inr hs"
  by (induction rs arbitrary: hs) (auto split: sum.splits)

lemma column_single_feature: "column (map (\<lambda>v. [v]) xs) 0 = Inr xs"
  by (simp add: column_def list_all_iff comp_def)

section \<open>Min-max scaling: range, order, partiality\<close>

text \<open>
  C1. For a finite sample whose minimum is strictly below its maximum, the min-max
  formula has a value in \<open>[0, 1]\<close> at every \<open>X\<close> between the minimum and the maximum; it
  sends the minimum to 0 and the maximum to 1; and scaling the whole sample gives a
  sample of the same length all of whose values are in \<open>[0, 1]\<close>.
\<close>

theorem min_max_scaling_unit_interval:
  assumes "xs \<noteq> []" and "Min (set xs) < Max (set xs)"
  shows "(\<forall>X. Min (set xs) \<le> X \<and> X \<le> Max (set xs) \<longrightarrow>
            (\<exists>X'. min_max_scaling (Min (set xs)) (Max (set xs)) X = Inr X'
                  \<and> 0 \<le> X' \<and> X' \<le> 1))
       \<and> min_max_scaling (Min (set xs)) (Max (set xs)) (Min (set xs)) = Inr 0
       \<and> min_max_scaling (Min (set xs)) (Max (set xs)) (Max (set xs)) = Inr 1
       \<and> (\<exists>ys. min_max_scaler xs = Inr ys \<and> length ys = length xs
                \<and> (\<forall>y \<in> set ys. 0 \<le> y \<and> y \<le> 1))"
proof -
  let ?mn = "Min (set xs)" and ?mx = "Max (set xs)"
  have ne: "?mn \<noteq> ?mx" using assms(2) by simp
  have point: "\<exists>X'. min_max_scaling ?mn ?mx X = Inr X' \<and> 0 \<le> X' \<and> X' \<le> 1"
    if "?mn \<le> X" "X \<le> ?mx" for X
    using unit_interval [OF assms(2) that] min_max_scaling_value [OF ne, of X] by simp
  have lo: "min_max_scaling ?mn ?mx ?mn = Inr 0"
    using min_max_scaling_value [OF ne, of ?mn] by simp
  have hi: "min_max_scaling ?mn ?mx ?mx = Inr 1"
    using min_max_scaling_value [OF ne, of ?mx] ne by simp
  have bounds: "?mn \<le> x \<and> x \<le> ?mx" if "x \<in> set xs" for x
    using that by simp
  have "0 \<le> (x - ?mn) / (?mx - ?mn) \<and> (x - ?mn) / (?mx - ?mn) \<le> 1"
    if "x \<in> set xs" for x
    using unit_interval [OF assms(2), of x] bounds [OF that] by simp
  then have "\<forall>y \<in> set (map (\<lambda>X. (X - ?mn) / (?mx - ?mn)) xs). 0 \<le> y \<and> y \<le> 1"
    by auto
  then have whole: "\<exists>ys. min_max_scaler xs = Inr ys \<and> length ys = length xs
      \<and> (\<forall>y \<in> set ys. 0 \<le> y \<and> y \<le> 1)"
    using min_max_scaler_value [OF assms(1) ne] by simp
  show ?thesis using point lo hi whole by blast
qed

theorem min_max_scaling_unit_interval_witness:
  "[1, 3, 2 :: real] \<noteq> [] \<and> Min (set [1, 3, 2 :: real]) < Max (set [1, 3, 2 :: real])
   \<and> min_max_scaling 1 3 2 = Inr (1 / 2)
   \<and> min_max_scaling 1 3 1 = Inr 0 \<and> min_max_scaling 1 3 3 = Inr 1
   \<and> (\<exists>ys. min_max_scaler [1, 3, 2] = Inr ys \<and> length ys = length [1, 3, 2 :: real]
            \<and> (\<forall>y \<in> set ys. 0 \<le> y \<and> y \<le> 1))"
proof -
  have h1: "[1, 3, 2 :: real] \<noteq> []" by simp
  have h2: "Min (set [1, 3, 2 :: real]) < Max (set [1, 3, 2 :: real])" by simp
  have mn: "Min (set [1, 3, 2 :: real]) = 1" and mx: "Max (set [1, 3, 2 :: real]) = 3"
    by simp_all
  have mid: "min_max_scaling 1 3 2 = Inr (1 / 2)"
    by (simp add: min_max_scaling_def guarded_div_def)
  note inst = min_max_scaling_unit_interval [OF h1 h2, unfolded mn mx]
  from inst have lo: "min_max_scaling 1 3 1 = Inr 0" by blast
  from inst have hi: "min_max_scaling 1 3 3 = Inr 1" by blast
  from inst have whole: "\<exists>ys. min_max_scaler [1, 3, 2] = Inr ys
      \<and> length ys = length [1, 3, 2 :: real] \<and> (\<forall>y \<in> set ys. 0 \<le> y \<and> y \<le> 1)"
    by blast
  show ?thesis using h1 h2 mid lo hi whole by blast
qed

text \<open>
  C6. For \<open>X_min < X_max\<close> (in particular for the minimum and maximum of a sample)
  the min-max map is affine with a positive slope, \<open>X' = a * X + b\<close> with \<open>0 < a\<close>, it
  has a value at every \<open>X\<close>, and it preserves the order and the strict order of any two
  inputs, in range or not.
\<close>

theorem min_max_scaling_affine_strictly_monotone:
  assumes "X_min < X_max"
  shows "(\<exists>a b. 0 < a \<and> (\<forall>X. min_max_scaling X_min X_max X = Inr (a * X + b)))
       \<and> (\<forall>X Y. \<exists>X' Y'. min_max_scaling X_min X_max X = Inr X'
                      \<and> min_max_scaling X_min X_max Y = Inr Y'
                      \<and> (X \<le> Y \<longrightarrow> X' \<le> Y') \<and> (X < Y \<longrightarrow> X' < Y'))"
proof -
  let ?d = "X_max - X_min"
  have ne: "X_min \<noteq> X_max" and pos: "0 < ?d" using assms by simp_all
  have affine: "min_max_scaling X_min X_max X = Inr ((1 / ?d) * X + (- X_min / ?d))" for X
    using min_max_scaling_value [OF ne, of X] by (simp add: diff_divide_distrib)
  have slope: "0 < 1 / ?d" using pos by simp
  have first: "\<exists>a b. 0 < a \<and> (\<forall>X. min_max_scaling X_min X_max X = Inr (a * X + b))"
    using slope affine by blast
  have le: "(X - X_min) / ?d \<le> (Y - X_min) / ?d" if "X \<le> Y" for X Y
    using that pos by (simp add: divide_right_mono)
  have less: "(X - X_min) / ?d < (Y - X_min) / ?d" if "X < Y" for X Y
    using that pos by (simp add: divide_strict_right_mono)
  have second: "\<exists>X' Y'. min_max_scaling X_min X_max X = Inr X'
      \<and> min_max_scaling X_min X_max Y = Inr Y'
      \<and> (X \<le> Y \<longrightarrow> X' \<le> Y') \<and> (X < Y \<longrightarrow> X' < Y')" for X Y
    using min_max_scaling_value [OF ne, of X] min_max_scaling_value [OF ne, of Y]
      le [of X Y] less [of X Y] by simp
  show ?thesis using first second by blast
qed

theorem min_max_scaling_affine_strictly_monotone_witness:
  "(1 :: real) < 3
   \<and> (\<exists>X' Y'. min_max_scaling 1 3 (3 / 2) = Inr X' \<and> min_max_scaling 1 3 2 = Inr Y'
        \<and> X' \<le> Y' \<and> X' < Y')"
proof -
  have h: "(1 :: real) < 3" by simp
  have o1: "(3 / 2 :: real) \<le> 2" and o2: "(3 / 2 :: real) < 2" by simp_all
  from min_max_scaling_affine_strictly_monotone [OF h]
  have "\<exists>X' Y'. min_max_scaling 1 3 (3 / 2) = Inr X' \<and> min_max_scaling 1 3 2 = Inr Y'
      \<and> ((3 / 2 :: real) \<le> 2 \<longrightarrow> X' \<le> Y') \<and> ((3 / 2 :: real) < 2 \<longrightarrow> X' < Y')"
    by blast
  then show ?thesis using h o1 o2 by blast
qed

text \<open>
  C8. The min-max formula is partial. When \<open>X_max = X_min\<close> the guarded division has
  no value, at any \<open>X\<close>, and scaling a non-empty constant sample fails with a division by
  zero. When \<open>X_max\<close> differs from \<open>X_min\<close> the formula has a value at every \<open>X\<close>, and
  scaling a sample whose maximum differs from its minimum succeeds.
\<close>

theorem min_max_scaling_partial:
  "(X_max = X_min \<longrightarrow> min_max_scaling X_min X_max X = Inl DivisionByZero)
   \<and> (X_max \<noteq> X_min \<longrightarrow> (\<exists>X'. min_max_scaling X_min X_max X = Inr X'))
   \<and> (xs \<noteq> [] \<and> Max (set xs) = Min (set xs) \<longrightarrow> min_max_scaler xs = Inl DivisionByZero)
   \<and> (xs \<noteq> [] \<and> Max (set xs) \<noteq> Min (set xs) \<longrightarrow> (\<exists>ys. min_max_scaler xs = Inr ys))"
proof -
  have a: "min_max_scaling X_min X_max X = Inl DivisionByZero" if "X_max = X_min"
    using that by (simp add: min_max_scaling_def guarded_div_def)
  have b: "\<exists>X'. min_max_scaling X_min X_max X = Inr X'" if "X_max \<noteq> X_min"
    using that by (simp add: min_max_scaling_def guarded_div_def)
  have c: "min_max_scaler xs = Inl DivisionByZero"
    if "xs \<noteq> []" "Max (set xs) = Min (set xs)"
  proof -
    have "min_max_scaling (Min (set xs)) (Max (set xs)) x = Inl DivisionByZero" for x
      using that(2) by (simp add: min_max_scaling_def guarded_div_def)
    then have "collect (map (min_max_scaling (Min (set xs)) (Max (set xs))) xs)
        = Inl DivisionByZero"
      using that(1) by (intro collect_map_Inl) simp_all
    then show ?thesis using that(1) by (simp add: min_max_scaler_def)
  qed
  have d: "\<exists>ys. min_max_scaler xs = Inr ys"
    if "xs \<noteq> []" "Max (set xs) \<noteq> Min (set xs)"
    using min_max_scaler_value [OF that(1)] that(2) by simp
  show ?thesis using a b c d by blast
qed

theorem min_max_scaling_partial_witness:
  "min_max_scaling 2 2 5 = Inl DivisionByZero
   \<and> min_max_scaler [2, 2] = Inl DivisionByZero
   \<and> (\<exists>X'. min_max_scaling 1 3 5 = Inr X')
   \<and> (\<exists>ys. min_max_scaler [1, 3] = Inr ys)"
proof -
  have h1: "[2, 2 :: real] \<noteq> [] \<and> Max (set [2, 2 :: real]) = Min (set [2, 2 :: real])"
    by simp
  have h2: "[1, 3 :: real] \<noteq> [] \<and> Max (set [1, 3 :: real]) \<noteq> Min (set [1, 3 :: real])"
    by simp
  have h3: "(3 :: real) \<noteq> 1" by simp
  show ?thesis
    using min_max_scaling_partial [of 2 2 5 "[2, 2]"]
      min_max_scaling_partial [of 3 1 5 "[1, 3]"] h1 h2 h3
    by blast
qed


section \<open>Z-score normalization\<close>

text \<open>
  C2. For every sample with more than \<open>ddof\<close> elements (for \<open>ddof = 0\<close>: every non-empty
  sample) the mean \<open>mu\<close> and the standard deviation \<open>sigma\<close> exist, and if \<open>sigma\<close> is
  not zero the z-score-normalized sample exists, has the length of the sample, has mean
  exactly 0 and has standard deviation exactly 1. This holds whether the standard
  deviation divides by \<open>n\<close> (\<open>ddof = 0\<close>) or by \<open>n - 1\<close> (\<open>ddof = 1\<close>).
\<close>

theorem z_score_zero_mean_unit_std:
  assumes "ddof < length xs"
  shows "\<exists>mu sigma. mean xs = Inr mu \<and> std_dev ddof xs = Inr sigma
           \<and> (sigma \<noteq> 0 \<longrightarrow>
                (\<exists>zs. z_score_normalization ddof xs = Inr zs \<and> length zs = length xs
                      \<and> mean zs = Inr 0 \<and> std_dev ddof zs = Inr 1))"
proof -
  let ?k = "real (length xs) - real ddof"
  have ne: "xs \<noteq> []" using assms by auto
  obtain mu where mu: "mean xs = Inr mu" using ne by (simp add: mean_def)
  let ?S = "sum_sq_dev mu xs"
  let ?sigma = "sqrt (?S / ?k)"
  have sd: "std_dev ddof xs = Inr ?sigma" by (rule std_dev_value [OF assms mu])
  have k: "0 < ?k" using assms by simp
  have main: "\<exists>zs. z_score_normalization ddof xs = Inr zs \<and> length zs = length xs
      \<and> mean zs = Inr 0 \<and> std_dev ddof zs = Inr 1" if nz: "?sigma \<noteq> 0"
  proof -
    let ?zs = "map (\<lambda>x. (x - mu) / ?sigma) xs"
    have S: "?S \<noteq> 0" using nz by auto
    have "0 \<le> ?S / ?k" using k sum_sq_dev_nonneg [of mu xs] by simp
    then have sq: "?sigma\<^sup>2 = ?S / ?k" by simp
    have z: "z_score_normalization ddof xs = Inr ?zs"
      using nz by (simp add: z_score_normalization_def mu sd collect_map_Inr
          z_score_def guarded_div_def)
    have mz: "mean ?zs = Inr 0" by (rule mean_standardized [OF ne mu])
    have "sum_sq_dev 0 ?zs = ?S / ?sigma\<^sup>2" by (rule sum_sq_dev_standardized)
    also have "\<dots> = ?k" using S k by (simp add: sq)
    finally have ss: "sum_sq_dev 0 ?zs = ?k" .
    have len: "ddof < length ?zs" using assms by simp
    have "std_dev ddof ?zs = Inr (sqrt (sum_sq_dev 0 ?zs / (real (length ?zs) - real ddof)))"
      by (rule std_dev_value [OF len mz])
    then have "std_dev ddof ?zs = Inr 1" using k by (simp add: ss)
    then show ?thesis using z mz by simp
  qed
  show ?thesis using mu sd main by blast
qed

theorem z_score_zero_mean_unit_std_witness:
  "(1 :: nat) < length [1, 3, 5 :: real] \<and> mean [1, 3, 5] = Inr 3 \<and> std_dev 1 [1, 3, 5] = Inr 2
   \<and> (2 :: real) \<noteq> 0
   \<and> (\<exists>zs. z_score_normalization 1 [1, 3, 5] = Inr zs \<and> length zs = length [1, 3, 5 :: real]
         \<and> mean zs = Inr 0 \<and> std_dev 1 zs = Inr 1)"
proof -
  have h: "(1 :: nat) < length [1, 3, 5 :: real]" by simp
  have m: "mean [1, 3, 5] = Inr 3" by (simp add: mean_def)
  have s: "std_dev 1 [1, 3, 5] = Inr 2"
    by (simp add: std_dev_def mean_def sum_sq_dev_def guarded_div_def guarded_sqrt_def)
  have nz: "(2 :: real) \<noteq> 0" by simp
  from z_score_zero_mean_unit_std [OF h]
  have "\<exists>zs. z_score_normalization 1 [1, 3, 5] = Inr zs \<and> length zs = length [1, 3, 5 :: real]
         \<and> mean zs = Inr 0 \<and> std_dev 1 zs = Inr 1"
    unfolding m s using nz by blast
  then show ?thesis using h m s nz by blast
qed

text \<open>The same on a sample of two values, with the standard deviation that divides by \<open>n\<close>.\<close>

lemma z_score_population_example:
  "std_dev 0 [1, 3] = Inr 1 \<and> z_score_normalization 0 [1, 3] = Inr [- 1, 1]
   \<and> mean [- 1, 1] = Inr 0 \<and> std_dev 0 [- 1, 1] = Inr 1"
  by (simp add: z_score_normalization_def z_score_def std_dev_def mean_def sum_sq_dev_def guarded_div_def guarded_sqrt_def)


section \<open>The cells of the notebook\<close>

text \<open>
  C7. Every cell of the notebook that has a source is a markdown cell; the notebook
  has exactly one code cell, and its source is empty; so there is no cell for a kernel
  to run.
\<close>

theorem no_executable_cells:
  "(\<forall>c \<in> set cells. \<not> is_empty_cell c \<longrightarrow> cell_type c = Markdown)
   \<and> (\<exists>c. code_cells cells = [c] \<and> is_empty_cell c)
   \<and> executable_cells cells = []"
  by (simp add: cells_def code_cells_def executable_cells_def is_empty_cell_def)

theorem no_executable_cells_witness:
  "cells ! 1 \<in> set cells \<and> \<not> is_empty_cell (cells ! 1) \<and> cell_type (cells ! 1) = Markdown"
proof -
  have h1: "cells ! 1 \<in> set cells" by (simp add: cells_def)
  have h2: "\<not> is_empty_cell (cells ! 1)" by (simp add: cells_def is_empty_cell_def)
  from no_executable_cells h1 h2 have "cell_type (cells ! 1) = Markdown" by blast
  then show ?thesis using h1 h2 by blast
qed

section \<open>Batch normalization\<close>

text \<open>
  C3. For every non-empty mini-batch and every \<open>epsilon > 0\<close> the normalized values
  \<open>x_hat\<close> exist, one for each element of the mini-batch, and their mean is exactly 0.
\<close>

theorem batch_norm_zero_mean:
  assumes "xs \<noteq> []" and "0 < eps"
  shows "\<exists>hs. batch_norm_hat eps xs = Inr hs \<and> length hs = length xs \<and> mean hs = Inr 0"
proof -
  obtain mu where mu: "mean xs = Inr mu" using assms(1) by (simp add: mean_def)
  obtain var where var: "variance xs = Inr var" using mu by (simp add: variance_def)
  have "batch_norm_hat eps xs = Inr (map (\<lambda>x. (x - mu) / sqrt (var + eps)) xs)"
    by (rule batch_norm_hat_value [OF assms mu var])
  moreover have "mean (map (\<lambda>x. (x - mu) / sqrt (var + eps)) xs) = Inr 0"
    by (rule mean_standardized [OF assms(1) mu])
  ultimately show ?thesis by simp
qed

theorem batch_norm_zero_mean_witness:
  "[1, 3 :: real] \<noteq> [] \<and> (0 :: real) < 3
   \<and> (\<exists>hs. batch_norm_hat 3 [1, 3] = Inr hs \<and> length hs = length [1, 3 :: real]
         \<and> mean hs = Inr 0)"
proof -
  have h1: "[1, 3 :: real] \<noteq> []" and h2: "(0 :: real) < 3" by simp_all
  show ?thesis using batch_norm_zero_mean [OF h1 h2] h1 h2 by blast
qed

text \<open>
  C4, as the claim states it, fails: with the mini-batch \<open>[1, 3]\<close> (mean 2, variance 1)
  and \<open>epsilon = 3\<close> the normalized values are \<open>- 1/2\<close> and \<open>1/2\<close>, whose variance is
  \<open>1/4\<close>, not 1.
\<close>

theorem batch_norm_variance_not_one:
  "batch_norm_hat 3 [1, 3] = Inr [- 1 / 2, 1 / 2]
   \<and> variance [- 1 / 2, 1 / 2] = Inr (1 / 4)
   \<and> variance [- 1 / 2, 1 / 2] \<noteq> Inr 1"
  by (simp add: batch_norm_hat_def mean_def variance_def sum_sq_dev_def x_hat_def
      guarded_sqrt_def guarded_div_def power2_eq_square)

text \<open>
  C4, amended. For every non-empty mini-batch and every \<open>epsilon > 0\<close> the variance of
  the normalized values over the mini-batch is exactly
  \<open>sigma_B^2 / (sigma_B^2 + epsilon)\<close>: at least 0 and strictly less than 1.
\<close>

theorem batch_norm_variance:
  assumes "xs \<noteq> []" and "0 < eps"
  shows "\<exists>var hs. variance xs = Inr var \<and> batch_norm_hat eps xs = Inr hs
           \<and> variance hs = Inr (var / (var + eps))
           \<and> 0 \<le> var / (var + eps) \<and> var / (var + eps) < 1"
proof -
  obtain mu where mu: "mean xs = Inr mu" using assms(1) by (simp add: mean_def)
  obtain var where var: "variance xs = Inr var" using mu by (simp add: variance_def)
  have nonneg: "0 \<le> var" by (rule variance_nonneg [OF var])
  have pos: "0 < var + eps" using nonneg assms(2) by simp
  have hs: "batch_norm_hat eps xs = Inr (map (\<lambda>x. (x - mu) / sqrt (var + eps)) xs)"
    by (rule batch_norm_hat_value [OF assms mu var])
  have "variance (map (\<lambda>x. (x - mu) / sqrt (var + eps)) xs)
      = Inr (var / (sqrt (var + eps))\<^sup>2)"
    by (rule variance_standardized [OF assms(1) mu var])
  then have v: "variance (map (\<lambda>x. (x - mu) / sqrt (var + eps)) xs)
      = Inr (var / (var + eps))"
    using pos by simp
  have lo: "0 \<le> var / (var + eps)" using nonneg pos by simp
  have hi: "var / (var + eps) < 1" using pos assms(2) by simp
  show ?thesis using var hs v lo hi by blast
qed

theorem batch_norm_variance_witness:
  "[1, 3 :: real] \<noteq> [] \<and> (0 :: real) < 3
   \<and> (\<exists>var hs. variance [1, 3] = Inr var \<and> batch_norm_hat 3 [1, 3] = Inr hs
         \<and> variance hs = Inr (var / (var + 3)) \<and> var / (var + 3) < 1)"
proof -
  have h1: "[1, 3 :: real] \<noteq> []" and h2: "(0 :: real) < 3" by simp_all
  show ?thesis using batch_norm_variance [OF h1 h2] h1 h2 by blast
qed

text \<open>
  C9. For \<open>epsilon > 0\<close> and a mini-batch or feature vector with variance \<open>sigma^2\<close>
  (all values equal or not), \<open>sqrt (sigma^2 + epsilon)\<close> has a value and is strictly
  positive, so the division of the formula never fails: neither batch normalization
  nor layer normalization ends in a division by zero, and on a non-empty input both
  have a result.
\<close>

theorem epsilon_prevents_division_by_zero:
  assumes "0 < eps"
  shows "(\<forall>var. variance xs = Inr var \<longrightarrow>
            guarded_sqrt (var + eps) = Inr (sqrt (var + eps)) \<and> 0 < sqrt (var + eps)
            \<and> (\<forall>x. x_hat mu var eps x \<noteq> Inl DivisionByZero))
       \<and> batch_norm eps gamma beta xs \<noteq> Inl DivisionByZero
       \<and> layer_norm eps gamma beta xs \<noteq> Inl DivisionByZero
       \<and> (xs \<noteq> [] \<longrightarrow> (\<exists>var. variance xs = Inr var)
              \<and> (\<exists>ys. batch_norm eps gamma beta xs = Inr ys)
              \<and> (\<exists>ys. layer_norm eps gamma beta xs = Inr ys))"
proof -
  have a: "guarded_sqrt (var + eps) = Inr (sqrt (var + eps)) \<and> 0 < sqrt (var + eps)
      \<and> (\<forall>x. x_hat mu var eps x \<noteq> Inl DivisionByZero)"
    if "variance xs = Inr var" for var
  proof -
    have "0 < var + eps" using variance_nonneg [OF that] assms by simp
    then show ?thesis by (simp add: guarded_sqrt_def x_hat_value)
  qed
  have b: "batch_norm eps gamma beta xs \<noteq> Inl DivisionByZero"
    using batch_norm_hat_not_div [OF assms, of xs]
    by (auto simp add: batch_norm_def split: sum.splits)
  have c: "layer_norm eps gamma beta xs \<noteq> Inl DivisionByZero"
    using batch_norm_hat_not_div [OF assms, of xs]
    by (auto simp add: layer_norm_def layer_norm_hat_eq split: sum.splits)
  have d: "(\<exists>var. variance xs = Inr var)
      \<and> (\<exists>ys. batch_norm eps gamma beta xs = Inr ys)
      \<and> (\<exists>ys. layer_norm eps gamma beta xs = Inr ys)" if ne: "xs \<noteq> []"
  proof -
    obtain hs where "batch_norm_hat eps xs = Inr hs"
      using batch_norm_hat_not_div [OF assms, of xs] ne by blast
    then show ?thesis
      using ne by (simp add: batch_norm_def layer_norm_def layer_norm_hat_eq variance_value)
  qed
  show ?thesis using a b c d by blast
qed

theorem epsilon_prevents_division_by_zero_witness:
  "(0 :: real) < 1 \<and> [5, 5, 5 :: real] \<noteq> [] \<and> variance [5, 5, 5] = Inr 0
   \<and> guarded_sqrt (0 + 1) = Inr (sqrt (0 + 1)) \<and> 0 < sqrt (0 + 1 :: real)
   \<and> (\<exists>ys. batch_norm 1 2 7 [5, 5, 5] = Inr ys)
   \<and> (\<exists>ys. layer_norm 1 2 7 [5, 5, 5] = Inr ys)"
proof -
  have h1: "(0 :: real) < 1" and h2: "[5, 5, 5 :: real] \<noteq> []" by simp_all
  have h3: "variance [5, 5, 5] = Inr 0"
    by (simp add: variance_def mean_def sum_sq_dev_def)
  show ?thesis
    using epsilon_prevents_division_by_zero [OF h1, of "[5, 5, 5]" 5 2 7] h1 h2 h3
    by blast
qed

text \<open>
  C10. For every non-empty mini-batch and every \<open>epsilon > 0\<close>, batch normalization
  with \<open>gamma = sqrt (sigma_B^2 + epsilon)\<close> and \<open>beta = mu_B\<close> returns the mini-batch
  itself.
\<close>

theorem batch_norm_undone_by_gamma_beta:
  assumes "xs \<noteq> []" and "0 < eps"
  shows "\<exists>mu var. mean xs = Inr mu \<and> variance xs = Inr var
           \<and> batch_norm eps (sqrt (var + eps)) mu xs = Inr xs"
proof -
  obtain mu where mu: "mean xs = Inr mu" using assms(1) by (simp add: mean_def)
  obtain var where var: "variance xs = Inr var" using mu by (simp add: variance_def)
  have pos: "0 < var + eps" using variance_nonneg [OF var] assms(2) by simp
  then have nz: "sqrt (var + eps) \<noteq> 0" by simp
  have hs: "batch_norm_hat eps xs = Inr (map (\<lambda>x. (x - mu) / sqrt (var + eps)) xs)"
    by (rule batch_norm_hat_value [OF assms mu var])
  have "map (scale_shift (sqrt (var + eps)) mu) (map (\<lambda>x. (x - mu) / sqrt (var + eps)) xs)
      = xs"
    using nz by (simp add: scale_shift_def map_idI)
  then have "batch_norm eps (sqrt (var + eps)) mu xs = Inr xs"
    by (simp add: batch_norm_def hs)
  then show ?thesis using mu var by blast
qed

theorem batch_norm_undone_by_gamma_beta_witness:
  "[1, 3 :: real] \<noteq> [] \<and> (0 :: real) < 3 \<and> mean [1, 3] = Inr 2 \<and> variance [1, 3] = Inr 1
   \<and> batch_norm 3 (sqrt (1 + 3)) 2 [1, 3] = Inr [1, 3]"
proof -
  have h1: "[1, 3 :: real] \<noteq> []" and h2: "(0 :: real) < 3" by simp_all
  have m: "mean [1, 3] = Inr 2" by (simp add: mean_def)
  have v: "variance [1, 3] = Inr 1" by (simp add: variance_def mean_def sum_sq_dev_def)
  from batch_norm_undone_by_gamma_beta [OF h1 h2]
  have "batch_norm 3 (sqrt (1 + 3)) 2 [1, 3] = Inr [1, 3]" unfolding m v by blast
  then show ?thesis using h1 h2 m v by blast
qed


section \<open>Layer normalization\<close>

text \<open>
  C5. The layer-normalization output of a data point does not depend on the batch it
  is in. If the feature vector \<open>x\<close> is data point \<open>i\<close> of one batch and data point \<open>j\<close> of
  another, of any sizes and with any other data points, then for the same \<open>epsilon\<close>,
  \<open>gamma\<close> and \<open>beta\<close> layer normalization of the two batches gives the same output for
  \<open>x\<close>. For a non-empty \<open>x\<close> that output is the layer normalization of \<open>x\<close> alone; and when
  \<open>sigma^2 + epsilon\<close> is positive it is \<open>gamma * (v - mu) / sqrt (sigma^2 + epsilon) + beta\<close>
  at every feature \<open>v\<close> of \<open>x\<close>, with \<open>mu\<close> and \<open>sigma^2\<close> the mean and the variance of the
  features of \<open>x\<close> only.
\<close>

theorem layer_norm_independent_of_batch:
  assumes "i < length batch1" and "j < length batch2"
    and "batch1 ! i = x" and "batch2 ! j = x"
  shows "layer_norm_batch eps gamma beta batch1 ! i
           = layer_norm_batch eps gamma beta batch2 ! j
       \<and> (x \<noteq> [] \<longrightarrow> layer_norm_batch eps gamma beta batch1 ! i = layer_norm eps gamma beta x)
       \<and> (\<forall>mu var. mean x = Inr mu \<and> variance x = Inr var \<and> 0 < var + eps \<longrightarrow>
             layer_norm_batch eps gamma beta batch1 ! i
               = Inr (map (\<lambda>v. gamma * ((v - mu) / sqrt (var + eps)) + beta) x))"
proof -
  have alone: "layer_norm_batch eps gamma beta batch1 ! i = layer_norm eps gamma beta x"
    if "x \<noteq> []"
    using layer_norm_batch_nth [OF assms(1), of eps gamma beta] assms(3) that by simp
  have same: "layer_norm_batch eps gamma beta batch1 ! i
      = layer_norm_batch eps gamma beta batch2 ! j"
  proof (cases "x = []")
    case True
    then show ?thesis
      using layer_norm_batch_nth_empty [OF assms(1), of eps gamma beta]
        layer_norm_batch_nth_empty [OF assms(2), of eps gamma beta] assms(3,4) by simp
  next
    case False
    then show ?thesis
      using layer_norm_batch_nth [OF assms(1), of eps gamma beta]
        layer_norm_batch_nth [OF assms(2), of eps gamma beta] assms(3,4) by simp
  qed
  have formula: "layer_norm_batch eps gamma beta batch1 ! i
      = Inr (map (\<lambda>v. gamma * ((v - mu) / sqrt (var + eps)) + beta) x)"
    if h: "mean x = Inr mu \<and> variance x = Inr var \<and> 0 < var + eps" for mu var
  proof -
    have "x \<noteq> []" using h by (auto simp add: mean_def)
    then show ?thesis using alone h layer_norm_value [of x mu var eps gamma beta] by simp
  qed
  show ?thesis using same alone formula by blast
qed

theorem layer_norm_independent_of_batch_witness:
  "(0 :: nat) < length [[1, 3 :: real]] \<and> (1 :: nat) < length [[0, 0], [1, 3], [4, 9 :: real]]
   \<and> mean [1, 3] = Inr 2 \<and> variance [1, 3] = Inr 1 \<and> (0 :: real) < 1 + 3
   \<and> layer_norm_batch 3 2 7 [[1, 3]] ! 0 = Inr [6, 8]
   \<and> layer_norm_batch 3 2 7 [[0, 0], [1, 3], [4, 9]] ! 1 = Inr [6, 8]"
proof -
  have h1: "(0 :: nat) < length [[1, 3 :: real]]"
    and h2: "(1 :: nat) < length [[0, 0], [1, 3], [4, 9 :: real]]" by simp_all
  have h3: "[[1, 3 :: real]] ! 0 = [1, 3]"
    and h4: "[[0, 0], [1, 3], [4, 9 :: real]] ! 1 = [1, 3]" by simp_all
  have m: "mean [1, 3] = Inr 2" by (simp add: mean_def)
  have v: "variance [1, 3] = Inr 1" by (simp add: variance_def mean_def sum_sq_dev_def)
  have p: "(0 :: real) < 1 + 3" by simp
  note inst = layer_norm_independent_of_batch [OF h1 h2 h3 h4, of 3 2 7]
  from inst m v p have "layer_norm_batch 3 2 7 [[1, 3]] ! 0
      = Inr (map (\<lambda>v. 2 * ((v - 2) / sqrt (1 + 3)) + 7) [1, 3])"
    by blast
  then have a: "layer_norm_batch 3 2 7 [[1, 3]] ! 0 = Inr [6, 8]" by simp
  from inst a have b: "layer_norm_batch 3 2 7 [[0, 0], [1, 3], [4, 9]] ! 1 = Inr [6, 8]"
    by simp
  show ?thesis using h1 h2 m v p a b by blast
qed

text \<open>
  Batch normalization of a batch does not have this property: the data point \<open>[1, 3]\<close>
  gets the output \<open>[6, 8]\<close> next to \<open>[3, 1]\<close> and \<open>[8, 6]\<close> next to \<open>[- 1, 5]\<close>.
\<close>

lemma batch_norm_depends_on_batch:
  "batch_norm_batch 3 2 7 [[1, 3], [3, 1]] ! 0 = Inr [6, 8]
   \<and> batch_norm_batch 3 2 7 [[1, 3], [- 1, 5]] ! 0 = Inr [8, 6]"
  by (simp add: batch_norm_batch_def normalize_batch_def normalize_entry_def
      statistics_over_def column_def mean_def variance_def sum_sq_dev_def x_hat_def
      guarded_sqrt_def guarded_div_def scale_shift_def)

text \<open>
  On a batch of data points with a single feature, batch normalization of the batch is
  batch normalization of the mini-batch of the values of that feature.
\<close>

lemma batch_norm_batch_single_feature:
  assumes "batch_norm eps gamma beta xs = Inr ys"
  shows "batch_norm_batch eps gamma beta (map (\<lambda>v. [v]) xs) = map (\<lambda>y. Inr [y]) ys"
proof -
  obtain hs where hs: "batch_norm_hat eps xs = Inr hs"
    and ys: "ys = map (scale_shift gamma beta) hs"
    using assms by (auto simp add: batch_norm_def split: sum.splits)
  obtain mu where mu: "mean xs = Inr mu"
    using hs by (auto simp add: batch_norm_hat_def split: sum.splits)
  obtain var where var: "variance xs = Inr var"
    using hs mu by (auto simp add: batch_norm_hat_def split: sum.splits)
  have "collect (map (x_hat mu var eps) xs) = Inr hs"
    using hs by (simp add: batch_norm_hat_def mu var)
  then have each: "map (x_hat mu var eps) xs = map Inr hs" by (rule collect_Inr_map)
  have "batch_norm_batch eps gamma beta (map (\<lambda>v. [v]) xs)
      = map (\<lambda>v. case x_hat mu var eps v of
                    Inl e \<Rightarrow> Inl e | Inr h \<Rightarrow> Inr [scale_shift gamma beta h]) xs"
    by (simp add: batch_norm_batch_def normalize_batch_def normalize_entry_def
        statistics_over_def column_single_feature mu var comp_def split: sum.splits)
  also have "\<dots> = map (\<lambda>r. case r of Inl e \<Rightarrow> Inl e | Inr h \<Rightarrow> Inr [scale_shift gamma beta h])
      (map (x_hat mu var eps) xs)"
    by (simp add: comp_def)
  also have "\<dots> = map (\<lambda>y. Inr [y]) ys"
    by (simp add: each ys comp_def)
  finally show ?thesis .
qed

end
